theory Spec2Isabelle
  imports Complex_Main "HOL-Library.AList"
begin

section \<open>JavaScript values\<close>

subsection \<open>Strings\<close>

text \<open>
  A JavaScript string is the list of its UTF-16 code units, each a natural number (below
  65536). \<open>cu\<close> is the code unit of an ASCII character and \<open>js\<close> the string of an ASCII
  text, so that \<open>js ''Bearer''\<close> is the string \<open>Bearer\<close>; strings are equal when their code
  units are.
\<close>

type_synonym jsstring = "nat list"

definition cu :: "char \<Rightarrow> nat" where
  "cu c = of_char c"

definition js :: "string \<Rightarrow> jsstring" where
  "js s = map cu s"

subsection \<open>Numbers\<close>

text \<open>
  A JavaScript number is a binary64 value: a finite one, given by the real number it
  denotes, or one of the three special values. The two zeros are one here: the sign of a
  zero is not kept (nothing below tells them apart).
\<close>

datatype jsnum = Fin real | PosInf | NegInf | NaN

text \<open>
  The reals that binary64 holds: an integer of less than 53 bits times a power of two, the
  exponent from that of the smallest subnormal to that of the largest binade.
\<close>

definition representable :: "real \<Rightarrow> bool" where
  "representable x =
     (\<exists>e\<in>{- 1074 .. 971 :: int}.
        real_of_int \<lfloor>x / 2 powi e\<rfloor> = x / 2 powi e \<and> \<bar>x / 2 powi e\<bar> < 2 ^ 53)"

text \<open>The nearest integer, a tie going to the even one.\<close>

definition round_half_even :: "real \<Rightarrow> int" where
  "round_half_even q =
     (let f = \<lfloor>q\<rfloor>; d = q - of_int f
      in if d < 1 / 2 then f else if 1 / 2 < d then f + 1 else if even f then f else f + 1)"

text \<open>
  The exponent of the binade of a real below \<open>2 ^ 1024\<close> in magnitude: the largest \<open>e\<close>
  from -1022 on with \<open>2 ^ e\<close> not above it, and -1022 for a real in the subnormal range.
\<close>

definition binade :: "real \<Rightarrow> int" where
  "binade x =
     (case filter (\<lambda>e. 2 powi e \<le> \<bar>x\<bar>) [- 1022 .. 1023] of
        [] \<Rightarrow> - 1022
      | es \<Rightarrow> last es)"

text \<open>
  The binary64 value nearest to such a real: in its binade (or among the subnormals) the
  values are one unit in the last place apart, 52 binary places below the binade.
\<close>

definition nearest64 :: "real \<Rightarrow> real" where
  "nearest64 x =
     (let ulp = 2 powi (binade x - 52)
      in of_int (round_half_even (x / ulp)) * ulp)"

text \<open>
  The number for an exact result, as every arithmetic operation and every numeric literal
  gives it (round to nearest, ties to even): a binary64 value is itself; from half a unit
  above the largest finite value on the result is an infinity; any other real goes to the
  nearest value.
\<close>

definition round64 :: "real \<Rightarrow> jsnum" where
  "round64 x =
     (if representable x then Fin x
      else if 2 ^ 1024 - 2 ^ 970 \<le> \<bar>x\<bar> then (if 0 < x then PosInf else NegInf)
      else Fin (nearest64 x))"

subsection \<open>Values\<close>

text \<open>
  What a field of a parsed CSV row can be: \<open>csv-parse\<close> with \<open>columns: true\<close> and
  \<open>cast: true\<close> delivers a string, a number (for a field that reads as one), or nothing
  at all when the header has no such column.
\<close>

datatype jsval = JUndefined | JString jsstring | JNumber jsnum

text \<open>\<open>!v\<close> is \<open>\<not> truthy v\<close>: \<open>undefined\<close>, \<open>''\<close>, \<open>0\<close> and \<open>NaN\<close> are falsy.\<close>

fun truthy :: "jsval \<Rightarrow> bool" where
  "truthy JUndefined = False"
| "truthy (JString s) = (s \<noteq> [])"
| "truthy (JNumber n) = (n \<noteq> Fin 0 \<and> n \<noteq> NaN)"

text \<open>\<open>a + b\<close> on numbers: the exact sum of two finite numbers, rounded.\<close>

fun jadd :: "jsnum \<Rightarrow> jsnum \<Rightarrow> jsnum" where
  "jadd (Fin a) (Fin b) = round64 (a + b)"
| "jadd (Fin a) PosInf = PosInf"
| "jadd (Fin a) NegInf = NegInf"
| "jadd PosInf (Fin b) = PosInf"
| "jadd PosInf PosInf = PosInf"
| "jadd PosInf NegInf = NaN"
| "jadd NegInf (Fin b) = NegInf"
| "jadd NegInf NegInf = NegInf"
| "jadd NegInf PosInf = NaN"
| "jadd NaN b = NaN"
| "jadd a NaN = NaN"

text \<open>
  \<open>a / xs.length\<close>: a number divided by an array length, the exact quotient of a finite
  number rounded.
\<close>

fun jdiv :: "jsnum \<Rightarrow> nat \<Rightarrow> jsnum" where
  "jdiv (Fin a) n =
     (if n = 0 then (if a = 0 then NaN else if 0 < a then PosInf else NegInf)
      else round64 (a / real n))"
| "jdiv PosInf n = PosInf"
| "jdiv NegInf n = NegInf"
| "jdiv NaN n = NaN"

fun jneg :: "jsnum \<Rightarrow> jsnum" where
  "jneg (Fin a) = Fin (- a)"
| "jneg PosInf = NegInf"
| "jneg NegInf = PosInf"
| "jneg NaN = NaN"

subsection \<open>Strings: \<open>split\<close>, \<open>trim\<close>, \<open>includes\<close>\<close>

text \<open>
  White space as \<open>trim\<close> and \<open>parseFloat\<close> strip it, the white space and the line
  terminators of the language: tab, line feed, vertical tab, form feed, carriage return,
  space, no-break space, the other space separators of Unicode (U+1680, U+2000 to U+200A,
  U+202F, U+205F, U+3000), the line and paragraph separators (U+2028, U+2029) and the
  byte order mark (U+FEFF).
\<close>

definition is_ws :: "nat \<Rightarrow> bool" where
  "is_ws c =
     (c \<in> set [0x09, 0x0A, 0x0B, 0x0C, 0x0D, 0x20, 0xA0, 0x1680,
                 0x2000, 0x2001, 0x2002, 0x2003, 0x2004, 0x2005, 0x2006, 0x2007, 0x2008,
                 0x2009, 0x200A, 0x2028, 0x2029, 0x202F, 0x205F, 0x3000, 0xFEFF])"

definition trim :: "jsstring \<Rightarrow> jsstring" where
  "trim s = rev (dropWhile is_ws (rev (dropWhile is_ws s)))"

text \<open>
  \<open>s.split(c)\<close> for a separator of one code unit: the pieces between the occurrences of
  \<open>c\<close>, so one piece more than there are occurrences; \<open>''.split(c)\<close> is \<open>['']\<close>. A
  code unit that is no separator goes to the front of the first piece of the rest (there
  always is one: the last case is never taken).
\<close>

fun split :: "nat \<Rightarrow> jsstring \<Rightarrow> jsstring list" where
  "split c [] = [[]]"
| "split c (x # xs) =
     (if x = c then [] # split c xs
      else (case split c xs of
              piece # pieces \<Rightarrow> (x # piece) # pieces
            | [] \<Rightarrow> [[x]]))"

text \<open>\<open>arr[i]\<close>, which is \<open>undefined\<close> past the end.\<close>

definition index_at :: "'a list \<Rightarrow> nat \<Rightarrow> 'a option" where
  "index_at xs i = (if i < length xs then Some (xs ! i) else None)"

text \<open>\<open>s.includes(t)\<close>.\<close>

fun str_includes :: "jsstring \<Rightarrow> jsstring \<Rightarrow> bool" where
  "str_includes [] t = (t = [])"
| "str_includes (x # xs) t = (take (length t) (x # xs) = t \<or> str_includes xs t)"

subsection \<open>\<open>parseFloat\<close>\<close>

text \<open>
  \<open>parseFloat(v)\<close> turns \<open>v\<close> into a string, skips leading white space and reads the
  longest prefix that is a decimal literal: an optional sign, then \<open>Infinity\<close> or digits
  with an optional fraction and an optional exponent. With no such prefix the result is
  \<open>NaN\<close>; otherwise it is the number for the exact value of the literal. A number prints
  to a string that reads back as the same number, and \<open>undefined\<close> prints as
  \<open>undefined\<close>, which is no literal.
\<close>

definition is_digit :: "nat \<Rightarrow> bool" where
  "is_digit c = (cu CHR ''0'' \<le> c \<and> c \<le> cu CHR ''9'')"

definition digits_val :: "jsstring \<Rightarrow> nat" where
  "digits_val ds = foldl (\<lambda>a c. 10 * a + (c - cu CHR ''0'')) 0 ds"

definition frac_val :: "jsstring \<Rightarrow> real" where
  "frac_val ds = real (digits_val ds) / 10 ^ length ds"

text \<open>
  The exponent of the longest exponent part at the head of the rest; an \<open>e\<close> with no digit
  after it is not part of the literal, which is the same as the exponent 0.
\<close>

definition exponent_part :: "jsstring \<Rightarrow> int" where
  "exponent_part r =
     (case r of
        [] \<Rightarrow> 0
      | c # t \<Rightarrow>
          if c = (cu CHR ''e'') \<or> c = (cu CHR ''E'') then
            (case t of
               [] \<Rightarrow> 0
             | s # u \<Rightarrow>
                 if s = (cu CHR ''-'') then - int (digits_val (takeWhile is_digit u))
                 else if s = (cu CHR ''+'') then int (digits_val (takeWhile is_digit u))
                 else int (digits_val (takeWhile is_digit t)))
          else 0)"

definition str_unsigned :: "jsstring \<Rightarrow> jsnum" where
  "str_unsigned s =
     (if take 8 s = (js ''Infinity'') then PosInf
      else
        let ip = takeWhile is_digit s;
            r1 = dropWhile is_digit s;
            fp = (case r1 of [] \<Rightarrow> [] | c # t \<Rightarrow> if c = (cu CHR ''.'') then takeWhile is_digit t else []);
            r2 = (case r1 of [] \<Rightarrow> [] | c # t \<Rightarrow> if c = (cu CHR ''.'') then dropWhile is_digit t else r1)
        in if ip = [] \<and> fp = [] then NaN
           else round64 ((real (digits_val ip) + frac_val fp) * 10 powi exponent_part r2))"

definition parseFloat_string :: "jsstring \<Rightarrow> jsnum" where
  "parseFloat_string s =
     (case dropWhile is_ws s of
        [] \<Rightarrow> NaN
      | c # t \<Rightarrow>
          if c = (cu CHR ''-'') then jneg (str_unsigned t)
          else if c = (cu CHR ''+'') then str_unsigned t
          else str_unsigned (c # t))"

fun parseFloat :: "jsval \<Rightarrow> jsnum" where
  "parseFloat (JNumber n) = n"
| "parseFloat (JString s) = parseFloat_string s"
| "parseFloat JUndefined = NaN"

text \<open>\<open>isNaN\<close> on a number.\<close>

definition isNaN :: "jsnum \<Rightarrow> bool" where
  "isNaN n = (n = NaN)"

section \<open>The price dataset service (\<open>services/dataService.ts\<close>)\<close>

text \<open>A row as the CSV parser delivers it, with the columns \<open>state\<close>, \<open>price\<close>, \<open>timestamp\<close>.\<close>

record csv_record =
  csv_state :: jsval
  csv_price :: jsval
  csv_timestamp :: jsval

text \<open>
  \<open>PriceRecord\<close>. The interface declares \<open>state\<close> and \<open>timestamp\<close> as strings; \<open>loadData\<close>
  stores the parser's value as it is, which after \<open>cast: true\<close> may be a number.
\<close>

record PriceRecord =
  state :: jsval
  price :: jsnum
  timestamp :: jsval

record DataService =
  data :: "PriceRecord list"
  states :: "jsval list"
  csvFilePath :: jsstring

text \<open>
  What a \<open>throw\<close> carries: an \<open>Error\<close> with an optional \<open>code\<close> and a message, or a value
  that is no \<open>Error\<close>. The message of the validation error is
  \<open>Invalid data format: \<close> followed by the JSON text of the row; the row stands for its
  JSON text.
\<close>

datatype message = Text jsstring | InvalidDataFormat csv_record

datatype thrown = Error "jsstring option" message | NonError

datatype load_error =
    FileNotFound
  | ParseFailed message
  | LoadFailed message
  | UnknownError

datatype config_error = CsvPathRequired | JwtSecretRequired | NoUsersFound

text \<open>The constructor: an explicit path wins over \<open>CSV_DATA_PATH\<close>; an empty string counts as absent.\<close>

definition DataService_new :: "jsstring option \<Rightarrow> jsstring option \<Rightarrow> config_error + DataService" where
  "DataService_new csvPath envPath =
     (let given = (\<lambda>p. case p of None \<Rightarrow> False | Some s \<Rightarrow> s \<noteq> [])
      in if \<not> given csvPath \<and> \<not> given envPath then Inl CsvPathRequired
         else Inr \<lparr>data = [], states = [],
                   csvFilePath = (if given csvPath then the csvPath else the envPath)\<rparr>)"

text \<open>\<open>Set.add\<close> on a set kept in insertion order, and \<open>Array.from\<close> of it is the list itself.\<close>

definition set_add :: "'a \<Rightarrow> 'a list \<Rightarrow> 'a list" where
  "set_add x xs = (if x \<in> set xs then xs else xs @ [x])"

text \<open>The callback of \<open>records.map\<close>: one row, with the local set of states threaded through.\<close>

definition convert_row :: "csv_record \<Rightarrow> jsval list \<Rightarrow> thrown + (PriceRecord \<times> jsval list)" where
  "convert_row record sts =
     (let p = parseFloat (csv_price record)
      in if isNaN p \<or> \<not> truthy (csv_state record) \<or> \<not> truthy (csv_timestamp record)
         then Inl (Error None (InvalidDataFormat record))
         else Inr (\<lparr>state = csv_state record, price = p, timestamp = csv_timestamp record\<rparr>,
                   set_add (csv_state record) sts))"

text \<open>\<open>records.map\<close>: rows in order; the first throw ends it and nothing is returned.\<close>

fun map_rows :: "csv_record list \<Rightarrow> jsval list \<Rightarrow> thrown + (PriceRecord list \<times> jsval list)" where
  "map_rows [] sts = Inr ([], sts)"
| "map_rows (r # rs) sts =
     (case convert_row r sts of
        Inl e \<Rightarrow> Inl e
      | Inr (rec, sts') \<Rightarrow>
          (case map_rows rs sts' of
             Inl e \<Rightarrow> Inl e
           | Inr (recs, sts2) \<Rightarrow> Inr (rec # recs, sts2)))"

text \<open>
  The \<open>catch\<close> block of \<open>loadData\<close>. Of the message of a validation error only its fixed
  head is searched, not the JSON text of the row.
\<close>

fun message_includes :: "message \<Rightarrow> jsstring \<Rightarrow> bool" where
  "message_includes (Text s) t = str_includes s t"
| "message_includes (InvalidDataFormat r) t = str_includes (js ''Invalid data format: '') t"

definition on_catch :: "thrown \<Rightarrow> load_error" where
  "on_catch e =
     (case e of
        Error code msg \<Rightarrow>
          if code = Some (js ''ENOENT'') then FileNotFound
          else if message_includes msg (js ''Invalid data format'') then ParseFailed msg
          else LoadFailed msg
      | NonError \<Rightarrow> UnknownError)"

text \<open>
  What reading and parsing the file give: a throw (of \<open>readFile\<close> or of the parser) or the
  parsed rows.
\<close>

datatype csv_source = Throws thrown | Parsed "csv_record list"

text \<open>
  \<open>loadData\<close>: the result and the service afterwards. \<open>this.data\<close> is assigned when
  \<open>map\<close> has returned, \<open>this.states\<close> right after it.
\<close>

definition loadData :: "DataService \<Rightarrow> csv_source \<Rightarrow> (load_error + unit) \<times> DataService" where
  "loadData this src =
     (case src of
        Throws e \<Rightarrow> (Inl (on_catch e), this)
      | Parsed records \<Rightarrow>
          (case map_rows records [] of
             Inl e \<Rightarrow> (Inl (on_catch e), this)
           | Inr (recs, sts) \<Rightarrow> (Inr (), (this\<lparr>data := recs\<rparr>)\<lparr>states := sts\<rparr>)))"

definition getAllData :: "DataService \<Rightarrow> PriceRecord list" where
  "getAllData this = data this"

definition getStateData :: "DataService \<Rightarrow> jsstring \<Rightarrow> PriceRecord list" where
  "getStateData this st =
     (if st = [] then [] else filter (\<lambda>record. state record = JString st) (data this))"

definition getMeanPrice :: "DataService \<Rightarrow> jsstring \<Rightarrow> jsnum option" where
  "getMeanPrice this st =
     (let stateData = getStateData this st
      in if length stateData = 0 then None
         else let totalPrice = foldl (\<lambda>sum record. jadd sum (price record)) (Fin 0) stateData
              in Some (jdiv totalPrice (length stateData)))"

definition getAvailableStates :: "DataService \<Rightarrow> jsval list" where
  "getAvailableStates this = states this"

text \<open>The services a process can hold: a fresh one, and what any sequence of loads makes of it.\<close>

inductive reachable :: "DataService \<Rightarrow> bool" where
  fresh: "DataService_new csvPath envPath = Inr this \<Longrightarrow> reachable this"
| load: "reachable this \<Longrightarrow> reachable (snd (loadData this src))"

text \<open>The condition of the validation in \<open>loadData\<close>, and the record a row that passes becomes.\<close>

definition row_rejected :: "csv_record \<Rightarrow> bool" where
  "row_rejected r =
     (isNaN (parseFloat (csv_price r)) \<or> \<not> truthy (csv_state r) \<or> \<not> truthy (csv_timestamp r))"

definition price_record_of :: "csv_record \<Rightarrow> PriceRecord" where
  "price_record_of r =
     \<lparr>state = csv_state r, price = parseFloat (csv_price r), timestamp = csv_timestamp r\<rparr>"

subsection \<open>What the specification speaks of\<close>

text \<open>
  A field that is absent or empty, and a field that the parser cast to a number that
  is falsy (the text \<open>0\<close>, read as the number zero).
\<close>

definition absent_or_empty :: "jsval \<Rightarrow> bool" where
  "absent_or_empty v = (v = JUndefined \<or> v = JString [])"

definition falsy_number :: "jsval \<Rightarrow> bool" where
  "falsy_number v = (v = JNumber (Fin 0) \<or> v = JNumber NaN)"

text \<open>The distinct values of a list, each once, in the order of their first occurrence.\<close>

primrec first_seen :: "'a list \<Rightarrow> 'a list" where
  "first_seen [] = []"
| "first_seen (x # xs) = x # filter (\<lambda>y. y \<noteq> x) (first_seen xs)"

text \<open>A state that is a string, as the interface \<open>PriceRecord\<close> declares it.\<close>

definition is_string :: "jsval \<Rightarrow> bool" where
  "is_string v = (case v of JString s \<Rightarrow> True | _ \<Rightarrow> False)"

text \<open>The arithmetic mean of a list of reals.\<close>

definition arithmetic_mean :: "real list \<Rightarrow> real" where
  "arithmetic_mean xs = sum_list xs / real (length xs)"

fun fin_val :: "jsnum \<Rightarrow> real" where
  "fin_val (Fin a) = a"
| "fin_val PosInf = 0"
| "fin_val NegInf = 0"
| "fin_val NaN = 0"

text \<open>
  The mean as binary64 arithmetic computes it: the prices added one after the other, from
  zero and from the left, each sum rounded, and the total divided by the count, rounded.
\<close>

definition float_mean :: "jsnum list \<Rightarrow> jsnum" where
  "float_mean ps = jdiv (foldl jadd (Fin 0) ps) (length ps)"

text \<open>
  No step of that computation rounds: the prices are finite, every partial sum (from \<open>a\<close>
  on) is a binary64 value, and so is the quotient.
\<close>

fun exact_sums :: "real \<Rightarrow> jsnum list \<Rightarrow> bool" where
  "exact_sums a [] = True"
| "exact_sums a (Fin b # ps) = (representable (a + b) \<and> exact_sums (a + b) ps)"
| "exact_sums a (p # ps) = False"

definition computed_exactly :: "jsnum list \<Rightarrow> bool" where
  "computed_exactly ps =
     (exact_sums 0 ps \<and> representable (arithmetic_mean (map fin_val ps)))"

section \<open>The credential store and token issuer (\<open>services/authService.ts\<close>)\<close>

text \<open>The four variables of \<open>process.env\<close> the constructor reads; \<open>None\<close> is an unset variable.\<close>

record process_env =
  JWT_SECRET :: "jsstring option"
  API_USERS :: "jsstring option"
  API_USERNAME :: "jsstring option"
  API_PASSWORD :: "jsstring option"

text \<open>Truthiness of a value that is a string or \<open>undefined\<close>.\<close>

definition str_truthy :: "jsstring option \<Rightarrow> bool" where
  "str_truthy v = (case v of None \<Rightarrow> False | Some s \<Rightarrow> s \<noteq> [])"

text \<open>
  The \<open>Map\<close> of users is an association list in insertion order: \<open>Map.set\<close> is
  \<open>AList.update\<close> (a known key keeps its place and takes the new value), \<open>Map.get\<close> is
  \<open>map_of\<close>, \<open>size\<close> is the length.
\<close>

record AuthService =
  users :: "(jsstring \<times> jsstring) list"
  jwtSecret :: jsstring

text \<open>The body of the loop over \<open>userPairs\<close>.\<close>

definition set_pair :: "(jsstring \<times> jsstring) list \<Rightarrow> jsstring \<Rightarrow> (jsstring \<times> jsstring) list" where
  "set_pair us pair =
     (let parts = split (cu CHR '':'') (trim pair);
          uname = index_at parts 0;
          password = index_at parts 1
      in case (uname, password) of
           (Some u, Some p) \<Rightarrow> if u \<noteq> [] \<and> p \<noteq> [] then AList.update u p us else us
         | _ \<Rightarrow> us)"

definition loadUsersFromEnv :: "process_env \<Rightarrow> (jsstring \<times> jsstring) list \<Rightarrow> (jsstring \<times> jsstring) list" where
  "loadUsersFromEnv env us =
     (case API_USERS env of
        Some apiUsers \<Rightarrow>
          if apiUsers \<noteq> [] then foldl set_pair us (split (cu CHR '','') apiUsers)
          else (case (API_USERNAME env, API_PASSWORD env) of
                  (Some u, Some p) \<Rightarrow> if u \<noteq> [] \<and> p \<noteq> [] then AList.update u p us else us
                | _ \<Rightarrow> us)
      | None \<Rightarrow>
          (case (API_USERNAME env, API_PASSWORD env) of
             (Some u, Some p) \<Rightarrow> if u \<noteq> [] \<and> p \<noteq> [] then AList.update u p us else us
           | _ \<Rightarrow> us))"

definition AuthService_new :: "process_env \<Rightarrow> config_error + AuthService" where
  "AuthService_new env =
     (if \<not> str_truthy (JWT_SECRET env) then Inl JwtSecretRequired
      else
        let us = loadUsersFromEnv env []
        in if length us = 0 then Inl NoUsersFound
           else Inr \<lparr>users = us, jwtSecret = the (JWT_SECRET env)\<rparr>)"

text \<open>\<open>validateCredentials\<close>; an argument that is missing at run time is \<open>None\<close>.\<close>

definition validateCredentials :: "AuthService \<Rightarrow> jsstring option \<Rightarrow> jsstring option \<Rightarrow> bool" where
  "validateCredentials this uname password =
     (if \<not> str_truthy uname \<or> \<not> str_truthy password then False
      else
        let storedPassword = map_of (users this) (the uname)
        in storedPassword = password)"

subsection \<open>The token library\<close>

text \<open>\<open>JWTPayload\<close>; the field \<open>exp\<close> is \<open>exp_claim\<close> here, \<open>iat\<close> is \<open>iat_claim\<close>.\<close>

record JWTPayload =
  username :: jsstring
  iat_claim :: int
  exp_claim :: int

text \<open>
  \<open>jsonwebtoken\<close> is not part of the repository. Its keyed hash is symbolic: a signature
  is the pair of the key and the payload it was made from, so two signatures are equal
  only when both agree. Its wire coding (base64url over JSON, three parts joined by dots)
  is a parameter: \<open>jwt_encode\<close> writes a payload and a signature as a token string,
  \<open>jwt_decode\<close> reads a string back, or fails on a string that is no token. Payloads are
  those of the interface \<open>JWTPayload\<close>, with its three claims and no others.
\<close>

datatype signature = HMAC jsstring JWTPayload

record jwt_codec =
  jwt_encode :: "JWTPayload \<Rightarrow> signature \<Rightarrow> jsstring"
  jwt_decode :: "jsstring \<Rightarrow> (JWTPayload \<times> signature) option"

datatype jwt_error = SecretRequired | JwtMalformed | InvalidSignature | TokenExpired

text \<open>\<open>jwt.sign(payload, secret)\<close> with no options: the payload as it is, signed.\<close>

definition jwt_sign :: "jwt_codec \<Rightarrow> JWTPayload \<Rightarrow> jsstring \<Rightarrow> jwt_error + jsstring" where
  "jwt_sign lib payload secret =
     (if secret = [] then Inl SecretRequired
      else Inr (jwt_encode lib payload (HMAC secret payload)))"

text \<open>
  \<open>jwt.verify(token, secret)\<close> with no options, at the clock reading \<open>now\<close> (milliseconds):
  decode, check the signature, then the expiry against the clock in whole seconds.
\<close>

definition jwt_verify :: "jwt_codec \<Rightarrow> jsstring \<Rightarrow> jsstring \<Rightarrow> int \<Rightarrow> jwt_error + JWTPayload" where
  "jwt_verify lib token secret now =
     (case jwt_decode lib token of
        None \<Rightarrow> Inl JwtMalformed
      | Some (payload, sig) \<Rightarrow>
          if secret = [] then Inl SecretRequired
          else if sig \<noteq> HMAC secret payload then Inl InvalidSignature
          else if exp_claim payload \<le> now div 1000 then Inl TokenExpired
          else Inr payload)"

text \<open>\<open>generateToken\<close>; \<open>now1\<close> and \<open>now2\<close> are its two readings of \<open>Date.now()\<close>.\<close>

definition generateToken :: "jwt_codec \<Rightarrow> AuthService \<Rightarrow> int \<Rightarrow> int \<Rightarrow> jsstring \<Rightarrow> jwt_error + jsstring" where
  "generateToken lib this now1 now2 uname =
     (let payload = \<lparr>username = uname,
                     iat_claim = now1 div 1000,
                     exp_claim = now2 div 1000 + 24 * 60 * 60\<rparr>
      in jwt_sign lib payload (jwtSecret this))"

text \<open>\<open>validateToken\<close>: every throw of the library is caught.\<close>

definition validateToken :: "jwt_codec \<Rightarrow> AuthService \<Rightarrow> int \<Rightarrow> jsstring \<Rightarrow> JWTPayload option" where
  "validateToken lib this now token =
     (if token = [] then None
      else case jwt_verify lib token (jwtSecret this) now of
             Inr decoded \<Rightarrow> Some decoded
           | Inl error \<Rightarrow> None)"

section \<open>The verification gate (\<open>middleware/auth.ts\<close>)\<close>

text \<open>
  What the middleware does with a request: it answers 401 with an error message, or it
  attaches the payload and calls \<open>next\<close>.
\<close>

datatype outcome = Unauthorized jsstring | Next JWTPayload

text \<open>
  \<open>getAuthService\<close>: the module's service, built from the environment on first use. The
  constructor may throw; then the variable stays unset.
\<close>

definition getAuthService ::
  "process_env \<Rightarrow> AuthService option \<Rightarrow> (config_error + AuthService) \<times> AuthService option" where
  "getAuthService env authService =
     (case authService of
        Some service \<Rightarrow> (Inr service, authService)
      | None \<Rightarrow>
          (case AuthService_new env of
             Inl e \<Rightarrow> (Inl e, None)
           | Inr service \<Rightarrow> (Inr service, Some service)))"

definition authMiddleware ::
  "jwt_codec \<Rightarrow> process_env \<Rightarrow> int \<Rightarrow> AuthService option \<Rightarrow> jsstring option
     \<Rightarrow> outcome \<times> AuthService option" where
  "authMiddleware lib env now authService authHeader =
     (if \<not> str_truthy authHeader then (Unauthorized (js ''Access token required''), authService)
      else
        let parts = split (cu CHR '' '') (the authHeader)
        in if length parts \<noteq> 2 \<or> index_at parts 0 \<noteq> Some (js ''Bearer'')
              \<or> \<not> str_truthy (index_at parts 1)
           then (Unauthorized (js ''Access token required''), authService)
           else
             let token = the (index_at parts 1)
             in case getAuthService env authService of
                  (Inl e, authService') \<Rightarrow> (Unauthorized (js ''Invalid token''), authService')
                | (Inr service, authService') \<Rightarrow>
                    (case validateToken lib service now token of
                       None \<Rightarrow> (Unauthorized (js ''Invalid token''), authService')
                     | Some user \<Rightarrow> (Next user, authService')))"

subsection \<open>What the specification speaks of\<close>

text \<open>The entry a \<open>username:password\<close> item of the multi-user form yields, if any.\<close>

definition pair_entry :: "jsstring \<Rightarrow> (jsstring \<times> jsstring) option" where
  "pair_entry pair =
     (case split (cu CHR '':'') (trim pair) of
        u # p # rest \<Rightarrow> if u \<noteq> [] \<and> p \<noteq> [] then Some (u, p) else None
      | _ \<Rightarrow> None)"

text \<open>The entries the multi-user form yields, in order, and those the legacy form yields.\<close>

definition multi_entries :: "process_env \<Rightarrow> (jsstring \<times> jsstring) list" where
  "multi_entries env =
     (case API_USERS env of
        None \<Rightarrow> []
      | Some apiUsers \<Rightarrow> List.map_filter pair_entry (split (cu CHR '','') apiUsers))"

definition legacy_entries :: "process_env \<Rightarrow> (jsstring \<times> jsstring) list" where
  "legacy_entries env =
     (case (API_USERNAME env, API_PASSWORD env) of
        (Some u, Some p) \<Rightarrow> if u \<noteq> [] \<and> p \<noteq> [] then [(u, p)] else []
      | _ \<Rightarrow> [])"

text \<open>\<open>Map.set\<close> of a list of entries, one after the other.\<close>

definition set_all ::
  "(jsstring \<times> jsstring) list \<Rightarrow> (jsstring \<times> jsstring) list \<Rightarrow> (jsstring \<times> jsstring) list" where
  "set_all us kvs = foldl (\<lambda>m kv. AList.update (fst kv) (snd kv) m) us kvs"

text \<open>The token of a header that is exactly \<open>Bearer <token>\<close>: one space, a token with none.\<close>

definition bearer_token :: "jsstring option \<Rightarrow> jsstring option" where
  "bearer_token authHeader =
     (case authHeader of
        None \<Rightarrow> None
      | Some h \<Rightarrow>
          if take 7 h = (js ''Bearer '') \<and> drop 7 h \<noteq> [] \<and> (cu CHR '' '') \<notin> set (drop 7 h)
          then Some (drop 7 h) else None)"

subsection \<open>Concrete configurations and datasets\<close>

definition fresh_service :: DataService where
  "fresh_service = \<lparr>data = [], states = [], csvFilePath = (js ''data/prices.csv'')\<rparr>"

definition nsw_rows :: "csv_record list" where
  "nsw_rows =
     [\<lparr>csv_state = JString (js ''NSW''), csv_price = JNumber (Fin 90), csv_timestamp = JString (js ''t1'')\<rparr>,
      \<lparr>csv_state = JString (js ''Vic''), csv_price = JNumber (Fin 70), csv_timestamp = JString (js ''t1'')\<rparr>,
      \<lparr>csv_state = JString (js ''NSW''), csv_price = JNumber (Fin 80), csv_timestamp = JString (js ''t2'')\<rparr>]"

definition nsw_service :: DataService where
  "nsw_service =
     \<lparr>data =
        [\<lparr>state = JString (js ''NSW''), price = Fin 90, timestamp = JString (js ''t1'')\<rparr>,
         \<lparr>state = JString (js ''Vic''), price = Fin 70, timestamp = JString (js ''t1'')\<rparr>,
         \<lparr>state = JString (js ''NSW''), price = Fin 80, timestamp = JString (js ''t2'')\<rparr>],
      states = [JString (js ''NSW''), JString (js ''Vic'')],
      csvFilePath = (js ''data/prices.csv'')\<rparr>"

definition bad_price_rows :: "csv_record list" where
  "bad_price_rows =
     [\<lparr>csv_state = JString (js ''Vic''), csv_price = JNumber (Fin 81), csv_timestamp = JString (js ''t1'')\<rparr>,
      \<lparr>csv_state = JString (js ''Vic''), csv_price = JString (js ''invalid_price''),
        csv_timestamp = JString (js ''t2'')\<rparr>]"

text \<open>The largest power of two among the binary64 values (about 8.99e307), and two rows with that price.\<close>

definition two_to_1023 :: real where
  "two_to_1023 = 2 ^ 1023"

definition large_price_rows :: "csv_record list" where
  "large_price_rows =
     [\<lparr>csv_state = JString (js ''NSW''), csv_price = JNumber (Fin two_to_1023),
        csv_timestamp = JString (js ''t1'')\<rparr>,
      \<lparr>csv_state = JString (js ''NSW''), csv_price = JNumber (Fin two_to_1023),
        csv_timestamp = JString (js ''t2'')\<rparr>]"

definition large_price_service :: DataService where
  "large_price_service =
     \<lparr>data =
        [\<lparr>state = JString (js ''NSW''), price = Fin two_to_1023, timestamp = JString (js ''t1'')\<rparr>,
         \<lparr>state = JString (js ''NSW''), price = Fin two_to_1023, timestamp = JString (js ''t2'')\<rparr>],
      states = [JString (js ''NSW'')],
      csvFilePath = (js ''data/prices.csv'')\<rparr>"

definition infinite_price_rows :: "csv_record list" where
  "infinite_price_rows =
     [\<lparr>csv_state = JString (js ''NSW''), csv_price = JString (js ''Infinity''),
        csv_timestamp = JString (js ''t1'')\<rparr>]"

definition test_env :: process_env where
  "test_env =
     \<lparr>JWT_SECRET = Some (js ''testsecret123''),
      API_USERS = Some (js ''testuser:testpass,admin:adminpass''),
      API_USERNAME = None, API_PASSWORD = None\<rparr>"

definition test_service :: AuthService where
  "test_service =
     \<lparr>users = [((js ''testuser''), (js ''testpass'')), ((js ''admin''), (js ''adminpass''))],
      jwtSecret = (js ''testsecret123'')\<rparr>"

definition shadowed_legacy_env :: process_env where
  "shadowed_legacy_env =
     \<lparr>JWT_SECRET = Some (js ''testsecret''),
      API_USERS = Some (js ''invalidformat''),
      API_USERNAME = Some (js ''legacyuser''), API_PASSWORD = Some (js ''legacypass'')\<rparr>"

definition legacy_env :: process_env where
  "legacy_env =
     \<lparr>JWT_SECRET = Some (js ''testsecret''),
      API_USERS = None,
      API_USERNAME = Some (js ''legacyuser''), API_PASSWORD = Some (js ''legacypass'')\<rparr>"

definition colon_env :: process_env where
  "colon_env =
     \<lparr>JWT_SECRET = Some (js ''testsecret''),
      API_USERS = Some (js ''user:p1:p2''),
      API_USERNAME = None, API_PASSWORD = None\<rparr>"

definition test_payload :: JWTPayload where
  "test_payload =
     \<lparr>username = (js ''testuser''), iat_claim = 1700000000, exp_claim = 1700086400\<rparr>"

text \<open>A coding that knows one token, the one of \<open>test_payload\<close> signed with the test secret.\<close>

definition one_token_codec :: jwt_codec where
  "one_token_codec =
     \<lparr>jwt_encode = (\<lambda>payload sig. (js ''header.payload.signature'')),
      jwt_decode = (\<lambda>token. if token = (js ''header.payload.signature'')
                              then Some (test_payload, HMAC (js ''testsecret123'') test_payload)
                              else None)\<rparr>"

section \<open>Properties of the numbers\<close>

declare js_def [simp] cu_def [simp]

lemma representableI:
  assumes "\<bar>m\<bar> < 2 ^ 53" "- 1074 \<le> e" "e \<le> 971"
  shows "representable (real_of_int m * 2 powi e)"
proof -
  have q: "real_of_int m * 2 powi e / 2 powi e = real_of_int m" by simp
  have "\<bar>real_of_int m\<bar> < 2 ^ 53"
    using assms(1) by (metis of_int_abs of_int_less_numeral_power_cancel_iff)
  with assms(2,3) show ?thesis
    unfolding representable_def q by (intro bexI [of _ e]) simp_all
qed

lemma representable_of_int: "\<bar>k\<bar> < 2 ^ 53 \<Longrightarrow> representable (real_of_int k)"
  using representableI [of k 0] by simp

lemma representable_numeral [simp]:
  "(numeral n :: int) < 2 ^ 53 \<Longrightarrow> representable (numeral n)"
  using representable_of_int [of "numeral n"] by simp

lemma representable_zero [simp]: "representable 0"
  using representable_of_int [of 0] by simp

text \<open>Every binary64 value is below \<open>2 ^ 1024\<close> in magnitude.\<close>

lemma representable_bound:
  assumes "representable x"
  shows "\<bar>x\<bar> < 2 ^ 1024"
proof -
  from assms obtain e where e: "e \<le> 971" and q: "\<bar>x / 2 powi e\<bar> < 2 ^ 53"
    unfolding representable_def by auto
  define P :: real where "P = 2 powi 971"
  define M :: real where "M = \<bar>x / 2 powi e\<bar>"
  have x: "\<bar>x\<bar> = M * 2 powi e"
    by (simp add: M_def)
  have P: "0 < P" by (simp add: P_def)
  have le: "(2::real) powi e \<le> P"
    unfolding P_def using e by (intro power_int_increasing) simp_all
  have M: "0 \<le> M" "M < 2 ^ 53"
    using q unfolding M_def by simp_all
  have "M * 2 powi e \<le> M * P"
    using le M(1) by (rule mult_left_mono)
  also have "M * P < 2 ^ 53 * P"
    using M(2) P by (rule mult_strict_right_mono)
  also have "2 ^ 53 * P = 2 ^ 1024"
    unfolding P_def by (simp add: power_int_def flip: power_add)
  finally show ?thesis unfolding x .
qed

lemma round64_representable [simp]: "representable x \<Longrightarrow> round64 x = Fin x"
  by (simp add: round64_def)

lemma round64_overflow: "2 ^ 1024 \<le> x \<Longrightarrow> round64 x = PosInf"
proof -
  assume a: "2 ^ 1024 \<le> x"
  then have "\<not> representable x" using representable_bound [of x] by auto
  moreover have "(2::real) ^ 1024 - 2 ^ 970 \<le> 2 ^ 1024" by simp
  then have "2 ^ 1024 - 2 ^ 970 \<le> \<bar>x\<bar>" using a by linarith
  moreover have "0 < x" using a by (smt (verit) zero_less_power)
  ultimately show ?thesis by (simp add: round64_def)
qed

lemma representable_two_to_1023 [simp]: "representable two_to_1023"
proof -
  have "(2::real) ^ 1023 = real_of_int (2 ^ 52) * 2 powi 971"
    by (simp add: power_int_def flip: power_add)
  then show ?thesis
    unfolding two_to_1023_def using representableI [of "2 ^ 52" 971] by simp
qed

lemma round64_two_to_1024: "round64 (2 * two_to_1023) = PosInf"
  by (rule round64_overflow) (simp add: two_to_1023_def)

section \<open>Properties of the price dataset service\<close>

lemma set_first_seen: "set (first_seen xs) = set xs"
  by (induction xs) auto

lemma distinct_first_seen: "distinct (first_seen xs)"
  by (induction xs) (auto simp: set_first_seen)

text \<open>The local set of states after the rows: what was there, then the new values as first seen.\<close>

lemma foldl_set_add:
  "foldl (\<lambda>acc x. set_add x acc) acc xs = acc @ filter (\<lambda>x. x \<notin> set acc) (first_seen xs)"
proof (induction xs arbitrary: acc)
  case Nil
  then show ?case by simp
next
  case (Cons x xs)
  show ?case
  proof (cases "x \<in> set acc")
    case True
    have "filter (\<lambda>y. y \<notin> set acc) (filter (\<lambda>y. y \<noteq> x) (first_seen xs))
        = filter (\<lambda>y. y \<notin> set acc) (first_seen xs)"
      using True by (auto intro: filter_cong)
    with True Cons show ?thesis by (simp add: set_add_def)
  next
    case False
    have "filter (\<lambda>y. y \<notin> set (acc @ [x])) (first_seen xs)
        = filter (\<lambda>y. y \<notin> set acc) (filter (\<lambda>y. y \<noteq> x) (first_seen xs))"
      by (auto intro: filter_cong)
    with False Cons [of "acc @ [x]"] show ?thesis by (simp add: set_add_def)
  qed
qed

lemma map_rows_Inr:
  "map_rows rows sts = Inr (recs, sts') \<Longrightarrow>
     recs = map price_record_of rows \<and> (\<forall>r\<in>set rows. \<not> row_rejected r) \<and>
     sts' = foldl (\<lambda>acc x. set_add x acc) sts (map csv_state rows)"
proof (induction rows arbitrary: sts recs sts')
  case Nil
  then show ?case by simp
next
  case (Cons r rows)
  then show ?case
    by (auto simp: convert_row_def row_rejected_def price_record_of_def Let_def
        split: if_splits sum.splits prod.splits)
qed

lemma map_rows_Inl:
  "map_rows rows sts = Inl e \<Longrightarrow>
     \<exists>r\<in>set rows. row_rejected r \<and> e = Error None (InvalidDataFormat r)"
proof (induction rows arbitrary: sts)
  case Nil
  then show ?case by simp
next
  case (Cons r rows)
  then show ?case
    by (auto simp: convert_row_def row_rejected_def Let_def
        split: if_splits sum.splits prod.splits)
qed

lemma map_rows_fails_iff:
  "(\<exists>e. map_rows rows sts = Inl e) \<longleftrightarrow> (\<exists>r\<in>set rows. row_rejected r)"
proof
  assume "\<exists>e. map_rows rows sts = Inl e"
  then show "\<exists>r\<in>set rows. row_rejected r" using map_rows_Inl by blast
next
  assume bad: "\<exists>r\<in>set rows. row_rejected r"
  show "\<exists>e. map_rows rows sts = Inl e"
  proof (cases "map_rows rows sts")
    case (Inl e)
    then show ?thesis by blast
  next
    case (Inr p)
    then obtain recs sts' where "map_rows rows sts = Inr (recs, sts')" by (cases p) auto
    from map_rows_Inr [OF this] bad show ?thesis by blast
  qed
qed

lemma not_truthy_iff: "\<not> falsy_number v \<Longrightarrow> \<not> truthy v \<longleftrightarrow> absent_or_empty v"
  by (cases v) (auto simp: falsy_number_def absent_or_empty_def)

lemma loadData_Inl: "loadData this src = (Inl e, this') \<Longrightarrow> this' = this"
  by (auto simp: loadData_def split: csv_source.splits sum.splits prod.splits)

lemma loadData_Inr:
  assumes ok: "loadData this src = (Inr u, this')"
  shows "\<exists>records. src = Parsed records \<and> (\<forall>r\<in>set records. \<not> row_rejected r) \<and>
           this' = this\<lparr>data := map price_record_of records,
                         states := first_seen (map csv_state records)\<rparr>"
proof -
  from ok obtain records where src: "src = Parsed records"
    by (cases src) (auto simp: loadData_def)
  with ok obtain recs sts where m: "map_rows records [] = Inr (recs, sts)"
    and t: "this' = (this\<lparr>data := recs\<rparr>)\<lparr>states := sts\<rparr>"
    by (auto simp: loadData_def split: sum.splits prod.splits)
  from map_rows_Inr [OF m] t src show ?thesis
    by (simp add: foldl_set_add)
qed

text \<open>Every record a service holds passed the validation: its state is truthy.\<close>

lemma reachable_states_truthy:
  "reachable this \<Longrightarrow> \<forall>record\<in>set (data this). truthy (state record)"
proof (induction rule: reachable.induct)
  case (fresh csvPath envPath this)
  then show ?case by (auto simp: DataService_new_def Let_def split: if_splits)
next
  case (load this src)
  show ?case
  proof (cases "loadData this src")
    case (Pair res this')
    show ?thesis
    proof (cases res)
      case (Inl e)
      with Pair loadData_Inl have "this' = this" by blast
      with Pair load.IH show ?thesis by simp
    next
      case (Inr u)
      with Pair loadData_Inr obtain records where
        "\<forall>r\<in>set records. \<not> row_rejected r"
        "this' = this\<lparr>data := map price_record_of records,
                      states := first_seen (map csv_state records)\<rparr>" by blast
      with Pair show ?thesis by (auto simp: row_rejected_def price_record_of_def)
    qed
  qed
qed

subsection \<open>The sum of the prices\<close>

lemma reduce_prices:
  "foldl (\<lambda>sum record. jadd sum (price record)) (Fin 0) rs = foldl jadd (Fin 0) (map price rs)"
  by (simp add: foldl_map)

lemma exact_sums_foldl:
  "exact_sums a ps \<Longrightarrow> foldl jadd (Fin a) ps = Fin (a + sum_list (map fin_val ps))"
proof (induction ps arbitrary: a)
  case Nil
  then show ?case by simp
next
  case (Cons p ps)
  then show ?case by (cases p) (simp_all add: add.assoc)
qed

lemma float_mean_exact:
  assumes "ps \<noteq> []" and "computed_exactly ps"
  shows "float_mean ps = Fin (arithmetic_mean (map fin_val ps))"
proof -
  from assms(2) have "foldl jadd (Fin 0) ps = Fin (sum_list (map fin_val ps))"
    using exact_sums_foldl [of 0 ps] by (simp add: computed_exactly_def)
  moreover from assms(2) have "representable (sum_list (map fin_val ps) / real (length ps))"
    by (simp add: computed_exactly_def arithmetic_mean_def)
  ultimately show ?thesis
    using assms(1) by (simp add: float_mean_def arithmetic_mean_def)
qed

subsection \<open>Two loads evaluated\<close>

lemma load_nsw: "loadData fresh_service (Parsed nsw_rows) = (Inr (), nsw_service)"
  by (simp add: fresh_service_def nsw_rows_def nsw_service_def loadData_def convert_row_def
      isNaN_def set_add_def)

lemma reachable_nsw: "reachable nsw_service"
proof -
  have "DataService_new (Some (js ''data/prices.csv'')) None = Inr fresh_service"
    by (simp add: DataService_new_def fresh_service_def)
  then have "reachable (snd (loadData fresh_service (Parsed nsw_rows)))"
    by (intro reachable.load reachable.fresh)
  then show ?thesis by (simp add: load_nsw)
qed

subsection \<open>The mean price\<close>

lemma load_large:
  "loadData fresh_service (Parsed large_price_rows) = (Inr (), large_price_service)"
  by (simp add: fresh_service_def large_price_rows_def large_price_service_def loadData_def
      convert_row_def isNaN_def set_add_def)

text \<open>
  Against C1 as it is stated: two loaded records of one region, each with the price
  \<open>2 ^ 1023\<close>. Their arithmetic mean is \<open>2 ^ 1023\<close>, itself a binary64 value; the sum of
  the two overflows, and \<open>getMeanPrice\<close> returns the infinity.
\<close>

theorem mean_of_large_prices_overflows:
  "loadData fresh_service (Parsed large_price_rows) = (Inr (), large_price_service)
   \<and> map price (getStateData large_price_service (js ''NSW''))
       = [Fin two_to_1023, Fin two_to_1023]
   \<and> arithmetic_mean [two_to_1023, two_to_1023] = two_to_1023
   \<and> representable two_to_1023
   \<and> getMeanPrice large_price_service (js ''NSW'') = Some PosInf"
proof -
  have 1: "map price (getStateData large_price_service (js ''NSW''))
       = [Fin two_to_1023, Fin two_to_1023]"
    by (simp add: large_price_service_def getStateData_def)
  have 2: "arithmetic_mean [two_to_1023, two_to_1023] = two_to_1023"
    by (simp add: arithmetic_mean_def)
  have 3: "getMeanPrice large_price_service (js ''NSW'') = Some PosInf"
    by (simp add: large_price_service_def getMeanPrice_def getStateData_def
        round64_two_to_1024)
  from load_large 1 2 3 show ?thesis by simp
qed

text \<open>
  C1, as the code has it. Take a service a process can hold (fresh, or after any
  sequence of loads) in which every record's state is a string. Then \<open>getMeanPrice r\<close>
  is \<open>None\<close>, neither zero nor an error, exactly when no record's state is the string
  \<open>r\<close>, code unit for code unit (the empty string, an unknown or differently cased
  region, a service never loaded). Otherwise it is the mean of the prices of exactly
  those records as binary64 arithmetic computes it, summing from the left and then
  dividing; that is their arithmetic mean whenever no step of the computation rounds.
\<close>

theorem getMeanPrice_binary64_mean:
  assumes "reachable this"
    and "\<forall>record\<in>set (data this). is_string (state record)"
  shows "getMeanPrice this r =
           (let prices = map price (filter (\<lambda>record. state record = JString r) (data this))
            in if prices = [] then None
               else if computed_exactly prices
                 then Some (Fin (arithmetic_mean (map fin_val prices)))
                 else Some (float_mean prices))"
proof (cases "r = []")
  case True
  from reachable_states_truthy [OF assms(1)]
  have "filter (\<lambda>record. state record = JString []) (data this) = []"
    by (auto simp: filter_empty_conv)
  with True show ?thesis by (simp add: getMeanPrice_def getStateData_def)
next
  case False
  define prices where
    "prices = map price (filter (\<lambda>record. state record = JString r) (data this))"
  have g: "getMeanPrice this r = (if prices = [] then None else Some (float_mean prices))"
    using False
    by (simp add: getMeanPrice_def getStateData_def Let_def reduce_prices float_mean_def
        prices_def)
  have "prices \<noteq> [] \<Longrightarrow> computed_exactly prices \<Longrightarrow>
      float_mean prices = Fin (arithmetic_mean (map fin_val prices))"
    by (rule float_mean_exact)
  with g show ?thesis
    unfolding Let_def prices_def [symmetric] by simp
qed

theorem getMeanPrice_binary64_mean_witness:
  "reachable nsw_service \<and> list_all (\<lambda>record. is_string (state record)) (data nsw_service)
     \<and> getMeanPrice nsw_service (js ''NSW'') = Some (Fin 85)
     \<and> getMeanPrice nsw_service (js ''nsw'') = None \<and> getMeanPrice nsw_service [] = None
     \<and> getMeanPrice fresh_service (js ''NSW'') = None"
proof -
  have f: "reachable fresh_service"
    by (rule reachable.fresh [of "Some (js ''data/prices.csv'')" None])
       (simp add: DataService_new_def fresh_service_def)
  have sn: "\<forall>record\<in>set (data nsw_service). is_string (state record)"
    by (simp add: nsw_service_def is_string_def)
  have sf: "\<forall>record\<in>set (data fresh_service). is_string (state record)"
    by (simp add: fresh_service_def)
  have 1: "getMeanPrice nsw_service (js ''NSW'') = Some (Fin 85)"
    using getMeanPrice_binary64_mean [OF reachable_nsw sn, of "js ''NSW''"]
    by (simp add: nsw_service_def computed_exactly_def arithmetic_mean_def)
  have 2: "getMeanPrice nsw_service (js ''nsw'') = None"
    using getMeanPrice_binary64_mean [OF reachable_nsw sn, of "js ''nsw''"]
    by (simp add: nsw_service_def)
  have 3: "getMeanPrice nsw_service [] = None"
    using getMeanPrice_binary64_mean [OF reachable_nsw sn, of "[]"]
    by (simp add: nsw_service_def)
  have 4: "getMeanPrice fresh_service (js ''NSW'') = None"
    using getMeanPrice_binary64_mean [OF f sf, of "js ''NSW''"]
    by (simp add: fresh_service_def)
  from sn have 5: "list_all (\<lambda>record. is_string (state record)) (data nsw_service)"
    by (simp only: list_all_iff)
  from reachable_nsw 5 1 2 3 4 show ?thesis by simp
qed

subsection \<open>Loading is all or nothing\<close>

text \<open>
  C2. A load that fails, for whatever reason, leaves the service exactly as it was; a
  load that succeeds replaces the records and the region index together, both computed
  from the new rows; and one row that fails the validation fails the whole load.
\<close>

theorem loadData_all_or_nothing:
  "(case loadData this src of
      (Inl e, this') \<Rightarrow> this' = this
    | (Inr u, this') \<Rightarrow>
        (\<exists>records. src = Parsed records \<and>
           this' = this\<lparr>data := map price_record_of records,
                         states := first_seen (map csv_state records)\<rparr>))
   \<and> ((\<exists>r\<in>set records. row_rejected r) \<longrightarrow>
        (\<exists>e. loadData this (Parsed records) = (Inl e, this)))"
proof
  show "case loadData this src of
      (Inl e, this') \<Rightarrow> this' = this
    | (Inr u, this') \<Rightarrow>
        (\<exists>records. src = Parsed records \<and>
           this' = this\<lparr>data := map price_record_of records,
                         states := first_seen (map csv_state records)\<rparr>)"
  proof (cases "loadData this src")
    case (Pair res this')
    then show ?thesis
      using loadData_Inl [of this src _ this'] loadData_Inr [of this src _ this']
      by (cases res) auto
  qed
next
  show "(\<exists>r\<in>set records. row_rejected r) \<longrightarrow>
        (\<exists>e. loadData this (Parsed records) = (Inl e, this))"
  proof
    assume "\<exists>r\<in>set records. row_rejected r"
    then obtain e where "map_rows records [] = Inl e"
      using map_rows_fails_iff [of records "[]"] by blast
    then show "\<exists>e. loadData this (Parsed records) = (Inl e, this)"
      by (simp add: loadData_def)
  qed
qed

theorem loadData_all_or_nothing_witness:
  "row_rejected (bad_price_rows ! 1)
   \<and> loadData nsw_service (Parsed bad_price_rows)
       = (Inl (ParseFailed (InvalidDataFormat (bad_price_rows ! 1))), nsw_service)
   \<and> getMeanPrice (snd (loadData nsw_service (Parsed bad_price_rows))) (js ''NSW'') = Some (Fin 85)
   \<and> loadData fresh_service (Parsed nsw_rows) = (Inr (), nsw_service)"
proof -
  have r: "row_rejected (bad_price_rows ! 1)"
    by (simp add: bad_price_rows_def row_rejected_def isNaN_def parseFloat_string_def
        str_unsigned_def is_ws_def is_digit_def)
  have l: "loadData nsw_service (Parsed bad_price_rows)
       = (Inl (ParseFailed (InvalidDataFormat (bad_price_rows ! 1))), nsw_service)"
    by (simp add: bad_price_rows_def loadData_def convert_row_def isNaN_def set_add_def
        parseFloat_string_def str_unsigned_def is_ws_def is_digit_def on_catch_def)
  have "\<exists>r\<in>set bad_price_rows. row_rejected r"
    using r by (simp add: bad_price_rows_def)
  with loadData_all_or_nothing [of nsw_service "Parsed bad_price_rows" bad_price_rows]
  have "\<exists>e. loadData nsw_service (Parsed bad_price_rows) = (Inl e, nsw_service)" by blast
  then have "snd (loadData nsw_service (Parsed bad_price_rows)) = nsw_service" by auto
  moreover have "getMeanPrice nsw_service (js ''NSW'') = Some (Fin 85)"
    by (simp add: nsw_service_def getMeanPrice_def getStateData_def)
  ultimately show ?thesis using r l load_nsw by simp
qed

subsection \<open>Which rows are rejected\<close>

text \<open>
  Against C3 as it is stated: a row whose price is the text \<open>Infinity\<close> is not a finite
  number, and the load accepts it. \<open>parseFloat\<close> reads it as the infinity, and \<open>isNaN\<close>
  of that is false.
\<close>

theorem infinite_price_accepted:
  "parseFloat (csv_price (infinite_price_rows ! 0)) = PosInf
   \<and> loadData fresh_service (Parsed infinite_price_rows)
       = (Inr (), fresh_service\<lparr>data := [\<lparr>state = JString (js ''NSW''), price = PosInf,
                                               timestamp = JString (js ''t1'')\<rparr>],
                                    states := [JString (js ''NSW'')]\<rparr>)"
  by (simp add: infinite_price_rows_def fresh_service_def loadData_def convert_row_def
      isNaN_def set_add_def parseFloat_string_def str_unsigned_def is_ws_def)

text \<open>
  C3, as the code has it. Take rows in which neither the state nor the timestamp is a
  number the parser cast to zero. Then a load fails exactly when some row's price reads,
  by \<open>parseFloat\<close>, as \<open>NaN\<close> (no decimal literal at its head), or its state or its
  timestamp is absent or empty. A price that reads as an infinity passes.
\<close>

theorem loadData_rejects_iff:
  assumes "\<forall>r\<in>set records. \<not> falsy_number (csv_state r) \<and> \<not> falsy_number (csv_timestamp r)"
  shows "(\<exists>e. fst (loadData this (Parsed records)) = Inl e) \<longleftrightarrow>
           (\<exists>r\<in>set records. parseFloat (csv_price r) = NaN \<or> absent_or_empty (csv_state r)
                                \<or> absent_or_empty (csv_timestamp r))"
proof -
  have "(\<exists>e. fst (loadData this (Parsed records)) = Inl e) \<longleftrightarrow> (\<exists>e. map_rows records [] = Inl e)"
    by (auto simp: loadData_def split: sum.splits prod.splits)
  also have "\<dots> \<longleftrightarrow> (\<exists>r\<in>set records. row_rejected r)"
    by (rule map_rows_fails_iff)
  also have "\<dots> \<longleftrightarrow> (\<exists>r\<in>set records. parseFloat (csv_price r) = NaN
                  \<or> absent_or_empty (csv_state r) \<or> absent_or_empty (csv_timestamp r))"
    using assms by (auto simp: row_rejected_def isNaN_def not_truthy_iff)
  finally show ?thesis .
qed

theorem loadData_rejects_iff_witness:
  "(\<exists>e. fst (loadData nsw_service (Parsed bad_price_rows)) = Inl e)
   \<and> parseFloat (csv_price (bad_price_rows ! 1)) = NaN
   \<and> \<not> (\<exists>e. fst (loadData fresh_service (Parsed nsw_rows)) = Inl e)"
proof -
  have n: "parseFloat (csv_price (bad_price_rows ! 1)) = NaN"
    by (simp add: bad_price_rows_def parseFloat_string_def str_unsigned_def is_ws_def
        is_digit_def)
  have hb: "\<forall>r\<in>set bad_price_rows.
      \<not> falsy_number (csv_state r) \<and> \<not> falsy_number (csv_timestamp r)"
    by (simp add: bad_price_rows_def falsy_number_def)
  have hn: "\<forall>r\<in>set nsw_rows.
      \<not> falsy_number (csv_state r) \<and> \<not> falsy_number (csv_timestamp r)"
    by (simp add: nsw_rows_def falsy_number_def)
  from n have "\<exists>r\<in>set bad_price_rows. parseFloat (csv_price r) = NaN
      \<or> absent_or_empty (csv_state r) \<or> absent_or_empty (csv_timestamp r)"
    by (simp add: bad_price_rows_def)
  then have 1: "\<exists>e. fst (loadData nsw_service (Parsed bad_price_rows)) = Inl e"
    using loadData_rejects_iff [OF hb, of nsw_service] by (simp only: simp_thms)
  have "\<not> (\<exists>r\<in>set nsw_rows. parseFloat (csv_price r) = NaN
      \<or> absent_or_empty (csv_state r) \<or> absent_or_empty (csv_timestamp r))"
    by (simp add: nsw_rows_def absent_or_empty_def)
  then have 2: "\<not> (\<exists>e. fst (loadData fresh_service (Parsed nsw_rows)) = Inl e)"
    using loadData_rejects_iff [OF hn, of fresh_service] by (simp only: simp_thms)
  from 1 n 2 show ?thesis by (simp only: simp_thms)
qed

subsection \<open>The region index\<close>

text \<open>
  C9. After a successful load the region index is the list of the distinct states of the
  records, each once, in the order of first occurrence: every record's state is in it
  and every entry is the state of a record. \<open>getAvailableStates\<close> returns that list, a
  function of the service alone, so the same on every call until a load changes it.
\<close>

theorem region_index_first_seen:
  assumes "loadData this src = (Inr u, this')"
  shows "states this' = first_seen (map state (data this'))
         \<and> distinct (states this')
         \<and> set (states this') = state ` set (data this')
         \<and> getAvailableStates this' = states this'"
proof -
  from loadData_Inr [OF assms] obtain records where
    t: "this' = this\<lparr>data := map price_record_of records,
                      states := first_seen (map csv_state records)\<rparr>" by blast
  then have 1: "states this' = first_seen (map state (data this'))"
    by (simp add: price_record_of_def comp_def)
  have 2: "distinct (states this')" unfolding 1 by (rule distinct_first_seen)
  have 3: "set (states this') = state ` set (data this')"
    unfolding 1 by (simp add: set_first_seen)
  from 1 2 3 show ?thesis by (simp add: getAvailableStates_def)
qed

theorem region_index_first_seen_witness:
  "loadData fresh_service (Parsed nsw_rows) = (Inr (), nsw_service)
   \<and> getAvailableStates nsw_service = [JString (js ''NSW''), JString (js ''Vic'')]
   \<and> first_seen (map state (data nsw_service)) = [JString (js ''NSW''), JString (js ''Vic'')]"
proof -
  have "states nsw_service = [JString (js ''NSW''), JString (js ''Vic'')]"
    by (simp add: nsw_service_def)
  with region_index_first_seen [OF load_nsw] load_nsw show ?thesis by simp
qed

section \<open>Properties of \<open>split\<close> and of the header form\<close>

lemma split_nonempty: "split c s \<noteq> []"
  by (induction s) (auto split: list.splits)

lemma split_no_sep: "p \<in> set (split c s) \<Longrightarrow> c \<notin> set p"
proof (induction s arbitrary: p)
  case Nil
  then show ?case by simp
next
  case (Cons x xs)
  obtain q qs where sp: "split c xs = q # qs"
    using split_nonempty [of c xs] by (cases "split c xs") auto
  with Cons show ?case by (auto split: if_splits)
qed

lemma split_none: "c \<notin> set a \<Longrightarrow> split c a = [a]"
  by (induction a) auto

lemma split_append: "c \<notin> set a \<Longrightarrow> split c (a @ c # r) = a # split c r"
  by (induction a) auto

lemma split_single: "split c s = [b] \<Longrightarrow> s = b"
proof (induction s arbitrary: b)
  case Nil
  then show ?case by simp
next
  case (Cons x xs)
  obtain q qs where sp: "split c xs = q # qs"
    using split_nonempty [of c xs] by (cases "split c xs") auto
  with Cons.prems have "x \<noteq> c" "b = x # q" "qs = []"
    by (auto split: if_splits)
  with sp Cons.IH [of q] show ?case by simp
qed

lemma split_two: "split c s = [a, b] \<Longrightarrow> s = a @ c # b"
proof (induction s arbitrary: a)
  case Nil
  then show ?case by simp
next
  case (Cons x xs)
  obtain q qs where sp: "split c xs = q # qs"
    using split_nonempty [of c xs] by (cases "split c xs") auto
  show ?case
  proof (cases "x = c")
    case True
    with Cons.prems have "a = []" "split c xs = [b]" by auto
    with True split_single [of c xs b] show ?thesis by simp
  next
    case False
    with Cons.prems sp have "a = x # q" "qs = [b]" by auto
    with sp Cons.IH [of q] show ?thesis by simp
  qed
qed

lemma split_two_iff:
  "split c s = [a, b] \<longleftrightarrow> s = a @ c # b \<and> c \<notin> set a \<and> c \<notin> set b"
proof
  assume sp: "split c s = [a, b]"
  then have "a \<in> set (split c s)" "b \<in> set (split c s)" by simp_all
  with split_two [OF sp] show "s = a @ c # b \<and> c \<notin> set a \<and> c \<notin> set b"
    using split_no_sep by blast
next
  assume "s = a @ c # b \<and> c \<notin> set a \<and> c \<notin> set b"
  then show "split c s = [a, b]" by (simp add: split_append split_none)
qed

lemma bearer_token_Some:
  "bearer_token (Some h) = Some t \<longleftrightarrow> h = (js ''Bearer'') @ (cu CHR '' '') # t \<and> t \<noteq> [] \<and> (cu CHR '' '') \<notin> set t"
proof
  assume b: "bearer_token (Some h) = Some t"
  then have t7: "take 7 h = (js ''Bearer '')" and t: "t = drop 7 h"
    and ne: "drop 7 h \<noteq> []" and ns: "(cu CHR '' '') \<notin> set (drop 7 h)"
    by (simp_all add: bearer_token_def split: if_splits)
  have "take 7 h @ drop 7 h = h" by (rule append_take_drop_id)
  then have "(js ''Bearer '') @ drop 7 h = h" by (simp only: t7)
  with t ne ns show "h = (js ''Bearer'') @ (cu CHR '' '') # t \<and> t \<noteq> [] \<and> (cu CHR '' '') \<notin> set t" by simp
next
  assume "h = (js ''Bearer'') @ (cu CHR '' '') # t \<and> t \<noteq> [] \<and> (cu CHR '' '') \<notin> set t"
  then show "bearer_token (Some h) = Some t" by (simp add: bearer_token_def)
qed

lemma bearer_token_Some_split:
  "bearer_token (Some h) = Some t \<longleftrightarrow> split (cu CHR '' '') h = [(js ''Bearer''), t] \<and> t \<noteq> []"
proof -
  have "(cu CHR '' '') \<notin> set (js ''Bearer'')" by simp
  then show ?thesis
    unfolding bearer_token_Some split_two_iff by blast
qed

lemma header_parts:
  "(length (split (cu CHR '' '') h) = 2 \<and> index_at (split (cu CHR '' '') h) 0 = Some (js ''Bearer'')
      \<and> str_truthy (index_at (split (cu CHR '' '') h) 1))
   \<longleftrightarrow> (\<exists>t. bearer_token (Some h) = Some t)"
proof
  assume l: "length (split (cu CHR '' '') h) = 2 \<and> index_at (split (cu CHR '' '') h) 0 = Some (js ''Bearer'')
      \<and> str_truthy (index_at (split (cu CHR '' '') h) 1)"
  then obtain a b where ab: "split (cu CHR '' '') h = [a, b]"
    by (auto simp: length_Suc_conv numeral_2_eq_2)
  with l have "a = (js ''Bearer'')" "b \<noteq> []" by (simp_all add: index_at_def str_truthy_def)
  with ab have "bearer_token (Some h) = Some b"
    unfolding bearer_token_Some_split by simp
  then show "\<exists>t. bearer_token (Some h) = Some t" ..
next
  assume "\<exists>t. bearer_token (Some h) = Some t"
  then obtain t where "split (cu CHR '' '') h = [(js ''Bearer''), t]" "t \<noteq> []"
    unfolding bearer_token_Some_split by blast
  then show "length (split (cu CHR '' '') h) = 2 \<and> index_at (split (cu CHR '' '') h) 0 = Some (js ''Bearer'')
      \<and> str_truthy (index_at (split (cu CHR '' '') h) 1)"
    by (simp add: index_at_def str_truthy_def)
qed

lemma header_token:
  "bearer_token (Some h) = Some t \<Longrightarrow> the (index_at (split (cu CHR '' '') h) 1) = t"
  unfolding bearer_token_Some_split by (simp add: index_at_def)

lemma bearer_token_empty: "bearer_token (Some []) = None"
  by (simp add: bearer_token_def)

section \<open>Properties of the credential store\<close>

lemma set_pair_entry:
  "set_pair us pair = (case pair_entry pair of None \<Rightarrow> us | Some (u, p) \<Rightarrow> AList.update u p us)"
proof (cases "split (cu CHR '':'') (trim pair)")
  case Nil
  then show ?thesis using split_nonempty by blast
next
  case (Cons u rest)
  then show ?thesis
    by (cases rest) (simp_all add: set_pair_def pair_entry_def index_at_def Let_def)
qed

lemma foldl_set_pair:
  "foldl set_pair us pairs = set_all us (List.map_filter pair_entry pairs)"
proof (induction pairs arbitrary: us)
  case Nil
  then show ?case by (simp add: set_all_def List.map_filter_simps)
next
  case (Cons pair pairs)
  then show ?case
    by (cases "pair_entry pair")
       (auto simp: set_all_def List.map_filter_simps set_pair_entry)
qed

lemma map_of_set_all: "map_of (set_all us kvs) = map_of (rev kvs @ us)"
proof (induction kvs arbitrary: us)
  case Nil
  then show ?case by (simp add: set_all_def)
next
  case (Cons kv kvs)
  have "set_all us (kv # kvs) = set_all (AList.update (fst kv) (snd kv) us) kvs"
    by (simp add: set_all_def)
  with Cons [of "AList.update (fst kv) (snd kv) us"] show ?case
    by (simp add: update_conv' map_add_def fun_eq_iff split: option.splits)
qed

lemma update_not_Nil: "AList.update k v al \<noteq> []"
  by (cases al) auto

lemma set_all_Nil: "set_all us kvs = [] \<longleftrightarrow> us = [] \<and> kvs = []"
proof (induction kvs arbitrary: us)
  case Nil
  then show ?case by (simp add: set_all_def)
next
  case (Cons kv kvs)
  have "set_all us (kv # kvs) = set_all (AList.update (fst kv) (snd kv) us) kvs"
    by (simp add: set_all_def)
  with Cons [of "AList.update (fst kv) (snd kv) us"] show ?case
    by (simp add: update_not_Nil)
qed

lemma set_update_subset: "set (AList.update k v al) \<subseteq> insert (k, v) (set al)"
  by (induction al) auto

lemma set_set_all: "set (set_all us kvs) \<subseteq> set us \<union> set kvs"
proof (induction kvs arbitrary: us)
  case Nil
  then show ?case by (simp add: set_all_def)
next
  case (Cons kv kvs)
  have "set_all us (kv # kvs) = set_all (AList.update (fst kv) (snd kv) us) kvs"
    by (simp add: set_all_def)
  with Cons [of "AList.update (fst kv) (snd kv) us"]
    set_update_subset [of "fst kv" "snd kv" us]
  show ?case by auto
qed

lemma loadUsersFromEnv_entries:
  "loadUsersFromEnv env [] =
     (if str_truthy (API_USERS env) then set_all [] (multi_entries env) else legacy_entries env)"
  by (auto simp: loadUsersFromEnv_def str_truthy_def multi_entries_def legacy_entries_def
      foldl_set_pair split: option.splits)

lemma pair_entry_Some:
  "pair_entry pair = Some (u, p) \<Longrightarrow> u \<noteq> [] \<and> p \<noteq> [] \<and> (cu CHR '':'') \<notin> set u \<and> (cu CHR '':'') \<notin> set p"
proof -
  assume a: "pair_entry pair = Some (u, p)"
  then obtain rest where sp: "split (cu CHR '':'') (trim pair) = u # p # rest" and ne: "u \<noteq> []" "p \<noteq> []"
    by (auto simp: pair_entry_def split: list.splits if_splits)
  then have "u \<in> set (split (cu CHR '':'') (trim pair))" "p \<in> set (split (cu CHR '':'') (trim pair))"
    by simp_all
  with ne show ?thesis using split_no_sep by blast
qed

lemma multi_entries_mem:
  "(u, p) \<in> set (multi_entries env) \<Longrightarrow> u \<noteq> [] \<and> p \<noteq> [] \<and> (cu CHR '':'') \<notin> set p"
  using pair_entry_Some
  by (fastforce simp: multi_entries_def List.map_filter_def split: option.splits)

lemma legacy_entries_mem: "(u, p) \<in> set (legacy_entries env) \<Longrightarrow> u \<noteq> [] \<and> p \<noteq> []"
  by (auto simp: legacy_entries_def split: option.splits if_splits)

lemma AuthService_new_Inr:
  "AuthService_new env = Inr this \<Longrightarrow>
     jwtSecret this \<noteq> [] \<and> users this = loadUsersFromEnv env [] \<and> users this \<noteq> []"
  by (auto simp: AuthService_new_def str_truthy_def Let_def split: if_splits option.splits)

lemma stored_nonempty:
  assumes "AuthService_new env = Inr this" and "map_of (users this) u = Some p"
  shows "u \<noteq> [] \<and> p \<noteq> []"
proof -
  from assms have "(u, p) \<in> set (loadUsersFromEnv env [])"
    using AuthService_new_Inr map_of_SomeD by fastforce
  then have "(u, p) \<in> set (multi_entries env) \<or> (u, p) \<in> set (legacy_entries env)"
    using set_set_all [of "[]" "multi_entries env"]
    by (auto simp: loadUsersFromEnv_entries split: if_splits)
  then show ?thesis using multi_entries_mem legacy_entries_mem by blast
qed

lemma new_test_env: "AuthService_new test_env = Inr test_service"
  by (simp add: AuthService_new_def test_env_def test_service_def str_truthy_def
      loadUsersFromEnv_def set_pair_def trim_def is_ws_def index_at_def)

subsection \<open>Which form of the configuration is used\<close>

text \<open>
  Against C4 as it is stated: with the multi-user variable set to an item that is no
  pair, and the legacy pair set, the multi-user form yields nothing and the legacy form
  yields an entry, yet the constructor fails with \<open>No users found\<close>.
\<close>

theorem legacy_not_consulted:
  "AuthService_new shadowed_legacy_env = Inl NoUsersFound
   \<and> multi_entries shadowed_legacy_env = []
   \<and> legacy_entries shadowed_legacy_env = [((js ''legacyuser''), (js ''legacypass''))]"
  by (simp add: AuthService_new_def shadowed_legacy_env_def str_truthy_def
      loadUsersFromEnv_def set_pair_def trim_def is_ws_def index_at_def
      multi_entries_def legacy_entries_def pair_entry_def List.map_filter_simps)

text \<open>
  C4, as the code has it. The constructor fails with the secret error exactly when no
  signing secret is set. Otherwise the legacy form is consulted exactly when the
  multi-user variable is unset or empty, the users are those of the form consulted (a
  later pair overwriting an earlier one of the same name), and the constructor fails
  with \<open>No users found\<close> exactly when that form yields no entry.
\<close>

theorem AuthService_new_users:
  "(AuthService_new env = Inl JwtSecretRequired \<longleftrightarrow> \<not> str_truthy (JWT_SECRET env))
   \<and> (AuthService_new env = Inl NoUsersFound \<longleftrightarrow>
        str_truthy (JWT_SECRET env)
        \<and> (if str_truthy (API_USERS env) then multi_entries env = []
            else legacy_entries env = []))
   \<and> (\<forall>this. AuthService_new env = Inr this \<longrightarrow>
        map_of (users this) =
          (if str_truthy (API_USERS env) then map_of (rev (multi_entries env))
           else map_of (legacy_entries env)))"
proof (intro conjI allI impI)
  show "AuthService_new env = Inl JwtSecretRequired \<longleftrightarrow> \<not> str_truthy (JWT_SECRET env)"
    by (simp add: AuthService_new_def Let_def)
next
  have "loadUsersFromEnv env [] = [] \<longleftrightarrow>
      (if str_truthy (API_USERS env) then multi_entries env = [] else legacy_entries env = [])"
    by (simp add: loadUsersFromEnv_entries set_all_Nil)
  then show "AuthService_new env = Inl NoUsersFound \<longleftrightarrow>
        str_truthy (JWT_SECRET env)
        \<and> (if str_truthy (API_USERS env) then multi_entries env = []
            else legacy_entries env = [])"
    by (simp add: AuthService_new_def Let_def)
next
  fix this
  assume "AuthService_new env = Inr this"
  then have "users this = loadUsersFromEnv env []" using AuthService_new_Inr by blast
  then show "map_of (users this) =
          (if str_truthy (API_USERS env) then map_of (rev (multi_entries env))
           else map_of (legacy_entries env))"
    by (simp add: loadUsersFromEnv_entries map_of_set_all)
qed

theorem AuthService_new_users_witness:
  "AuthService_new legacy_env
     = Inr \<lparr>users = [((js ''legacyuser''), (js ''legacypass''))], jwtSecret = (js ''testsecret'')\<rparr>
   \<and> \<not> str_truthy (API_USERS legacy_env)
   \<and> map_of (legacy_entries legacy_env) (js ''legacyuser'') = Some (js ''legacypass'')
   \<and> str_truthy (API_USERS shadowed_legacy_env)
   \<and> AuthService_new shadowed_legacy_env = Inl NoUsersFound"
proof -
  have 1: "AuthService_new legacy_env
     = Inr \<lparr>users = [((js ''legacyuser''), (js ''legacypass''))], jwtSecret = (js ''testsecret'')\<rparr>"
    by (simp add: AuthService_new_def legacy_env_def str_truthy_def loadUsersFromEnv_def)
  have 2: "\<not> str_truthy (API_USERS legacy_env)"
    by (simp add: legacy_env_def str_truthy_def)
  from AuthService_new_users [of legacy_env] 1 2
  have 3: "map_of (legacy_entries legacy_env) (js ''legacyuser'') = Some (js ''legacypass'')"
    by (auto simp: fun_eq_iff split: if_splits)
  have 4: "str_truthy (API_USERS shadowed_legacy_env)"
    "str_truthy (JWT_SECRET shadowed_legacy_env)"
    by (simp_all add: shadowed_legacy_env_def str_truthy_def)
  have "multi_entries shadowed_legacy_env = []"
    by (simp add: shadowed_legacy_env_def multi_entries_def pair_entry_def trim_def is_ws_def
        List.map_filter_simps)
  with AuthService_new_users [of shadowed_legacy_env] 4
  have 5: "AuthService_new shadowed_legacy_env = Inl NoUsersFound" by simp
  from 1 2 3 4 5 show ?thesis by simp
qed

subsection \<open>Checking credentials\<close>

text \<open>
  C7. On a constructed service \<open>validateCredentials\<close>, a total function, is true for
  every pair of the configured set, and false when an argument is missing or empty,
  when the username is not in the set, and when the password is not the stored one.
\<close>

theorem validateCredentials_configured:
  assumes "AuthService_new env = Inr this"
  shows "(map_of (users this) u = Some p \<longrightarrow> validateCredentials this (Some u) (Some p))
       \<and> (\<not> str_truthy a \<or> \<not> str_truthy b \<longrightarrow> \<not> validateCredentials this a b)
       \<and> (map_of (users this) u = None \<longrightarrow> \<not> validateCredentials this (Some u) b)
       \<and> (map_of (users this) u = Some q \<and> b \<noteq> Some q \<longrightarrow> \<not> validateCredentials this (Some u) b)"
proof (intro conjI impI)
  assume m: "map_of (users this) u = Some p"
  with stored_nonempty [OF assms m] show "validateCredentials this (Some u) (Some p)"
    by (simp add: validateCredentials_def str_truthy_def)
next
  assume "\<not> str_truthy a \<or> \<not> str_truthy b"
  then show "\<not> validateCredentials this a b"
    by (auto simp: validateCredentials_def)
next
  assume "map_of (users this) u = None"
  then show "\<not> validateCredentials this (Some u) b"
    by (auto simp: validateCredentials_def str_truthy_def split: option.splits)
next
  assume "map_of (users this) u = Some q \<and> b \<noteq> Some q"
  then show "\<not> validateCredentials this (Some u) b"
    by (auto simp: validateCredentials_def Let_def)
qed

theorem validateCredentials_configured_witness:
  "AuthService_new test_env = Inr test_service
   \<and> validateCredentials test_service (Some (js ''admin'')) (Some (js ''adminpass''))
   \<and> \<not> validateCredentials test_service (Some (js ''admin'')) (Some (js ''adminpasS''))
   \<and> \<not> validateCredentials test_service (Some (js ''wronguser'')) (Some (js ''testpass''))
   \<and> \<not> validateCredentials test_service (Some (js ''admin'')) None
   \<and> \<not> validateCredentials test_service (Some []) (Some (js ''testpass''))"
proof -
  note t = validateCredentials_configured [OF new_test_env]
  have a: "map_of (users test_service) (js ''admin'') = Some (js ''adminpass'')"
    and w: "map_of (users test_service) (js ''wronguser'') = None"
    by (simp_all add: test_service_def)
  from t [where u = "(js ''admin'')" and p = "(js ''adminpass'')"] a
  have 1: "validateCredentials test_service (Some (js ''admin'')) (Some (js ''adminpass''))"
    by (simp only: simp_thms)
  from t [where u = "(js ''admin'')" and b = "Some (js ''adminpasS'')" and q = "(js ''adminpass'')"] a
  have 2: "\<not> validateCredentials test_service (Some (js ''admin'')) (Some (js ''adminpasS''))"
    by simp
  from t [where u = "(js ''wronguser'')" and b = "Some (js ''testpass'')"] w
  have 3: "\<not> validateCredentials test_service (Some (js ''wronguser'')) (Some (js ''testpass''))"
    by (simp only: simp_thms)
  from t [where a = "Some (js ''admin'')" and b = None]
  have 4: "\<not> validateCredentials test_service (Some (js ''admin'')) None"
    by (simp add: str_truthy_def)
  from t [where a = "Some []" and b = "Some (js ''testpass'')"]
  have 5: "\<not> validateCredentials test_service (Some []) (Some (js ''testpass''))"
    by (simp add: str_truthy_def)
  from new_test_env 1 2 3 4 5 show ?thesis by simp
qed

subsection \<open>Passwords with a colon\<close>

text \<open>
  C10. An item of the multi-user form is split at every colon and only the first two
  pieces are used: the item \<open>user:p1:p2\<close> stores the password \<open>p1\<close>, whatever follows
  the second colon is dropped, and no password stored from the multi-user form contains
  a colon.
\<close>

theorem multi_user_password_stops_at_colon:
  "(API_USERS env = Some (u @ (js '':'') @ p1 @ (js '':'') @ p2)
      \<and> u \<noteq> [] \<and> p1 \<noteq> [] \<and> (cu CHR '':'') \<notin> set u \<and> (cu CHR '':'') \<notin> set p1
      \<and> (cu CHR '','') \<notin> set (u @ p1 @ p2)
      \<and> trim (u @ (js '':'') @ p1 @ (js '':'') @ p2) = u @ (js '':'') @ p1 @ (js '':'') @ p2
    \<longrightarrow> loadUsersFromEnv env [] = [(u, p1)])
   \<and> (str_truthy (API_USERS env) \<longrightarrow>
        (\<forall>(n, p)\<in>set (loadUsersFromEnv env []). (cu CHR '':'') \<notin> set p))"
proof (intro conjI impI)
  let ?e = "u @ (js '':'') @ p1 @ (js '':'') @ p2"
  assume a: "API_USERS env = Some ?e
      \<and> u \<noteq> [] \<and> p1 \<noteq> [] \<and> (cu CHR '':'') \<notin> set u \<and> (cu CHR '':'') \<notin> set p1
      \<and> (cu CHR '','') \<notin> set (u @ p1 @ p2)
      \<and> trim ?e = ?e"
  then have "(cu CHR '','') \<notin> set ?e" by simp
  then have items: "split (cu CHR '','') ?e = [?e]" by (rule split_none)
  have "split (cu CHR '':'') ?e = u # split (cu CHR '':'') (p1 @ (js '':'') @ p2)"
    using a split_append [of "(cu CHR '':'')" u "p1 @ (js '':'') @ p2"] by simp
  also have "split (cu CHR '':'') (p1 @ (js '':'') @ p2) = p1 # split (cu CHR '':'') p2"
    using a split_append [of "(cu CHR '':'')" p1 p2] by simp
  finally have "pair_entry ?e = Some (u, p1)"
    using a by (simp add: pair_entry_def)
  with items a have "multi_entries env = [(u, p1)]"
    by (simp add: multi_entries_def List.map_filter_simps)
  moreover from a have "str_truthy (API_USERS env)" by (simp add: str_truthy_def)
  ultimately show "loadUsersFromEnv env [] = [(u, p1)]"
    by (simp add: loadUsersFromEnv_entries set_all_def)
next
  assume "str_truthy (API_USERS env)"
  then have "set (loadUsersFromEnv env []) \<subseteq> set (multi_entries env)"
    using set_set_all [of "[]" "multi_entries env"] by (simp add: loadUsersFromEnv_entries)
  then show "\<forall>(n, p)\<in>set (loadUsersFromEnv env []). (cu CHR '':'') \<notin> set p"
    using multi_entries_mem by blast
qed

theorem multi_user_password_stops_at_colon_witness:
  "API_USERS colon_env = Some ((js ''user'') @ (js '':'') @ (js ''p1'') @ (js '':'') @ (js ''p2''))
   \<and> loadUsersFromEnv colon_env [] = [((js ''user''), (js ''p1''))]
   \<and> str_truthy (API_USERS colon_env)
   \<and> list_all (\<lambda>(n, p). (cu CHR '':'') \<notin> set p) (loadUsersFromEnv colon_env [])"
proof -
  have a: "API_USERS colon_env = Some ((js ''user'') @ (js '':'') @ (js ''p1'') @ (js '':'') @ (js ''p2''))"
    by (simp add: colon_env_def)
  have t: "trim ((js ''user'') @ (js '':'') @ (js ''p1'') @ (js '':'') @ (js ''p2'')) = (js ''user'') @ (js '':'') @ (js ''p1'') @ (js '':'') @ (js ''p2'')"
    by (simp add: trim_def is_ws_def)
  have s: "str_truthy (API_USERS colon_env)"
    by (simp add: colon_env_def str_truthy_def)
  note m = multi_user_password_stops_at_colon [of colon_env "(js ''user'')" "(js ''p1'')" "(js ''p2'')"]
  from m a t have 1: "loadUsersFromEnv colon_env [] = [((js ''user''), (js ''p1''))]" by simp
  from conjunct2 [OF m] s
  have 2: "\<forall>(n, p)\<in>set (loadUsersFromEnv colon_env []). (cu CHR '':'') \<notin> set p"
    by (rule mp)
  from 2 have 3: "list_all (\<lambda>(n, p). (cu CHR '':'') \<notin> set p) (loadUsersFromEnv colon_env [])"
    by (simp only: list_all_iff)
  from a 1 s 3 show ?thesis by (simp only: simp_thms)
qed

section \<open>Properties of the tokens\<close>

lemma new_test_service_secret: "jwtSecret test_service = (js ''testsecret123'')"
  by (simp add: test_service_def)

text \<open>
  C5. On a constructed service, a token issued for any username and verified at the same
  clock reading with the same secret is accepted, and the payload returned has that
  username and expires 86400 seconds after it was issued. The coding of the library is
  taken to be lossless on the token issued: it is not empty and decodes to what was
  encoded.
\<close>

theorem issue_then_verify:
  assumes "AuthService_new env = Inr this"
    and "payload = \<lparr>username = u, iat_claim = now div 1000, exp_claim = now div 1000 + 86400\<rparr>"
    and "jwt_encode lib payload (HMAC (jwtSecret this) payload) \<noteq> []"
    and "jwt_decode lib (jwt_encode lib payload (HMAC (jwtSecret this) payload))
           = Some (payload, HMAC (jwtSecret this) payload)"
  shows "\<exists>token. generateToken lib this now now u = Inr token
           \<and> validateToken lib this now token = Some payload
           \<and> username payload = u
           \<and> exp_claim payload - iat_claim payload = 86400"
proof -
  from assms(1) have k: "jwtSecret this \<noteq> []" using AuthService_new_Inr by blast
  let ?token = "jwt_encode lib payload (HMAC (jwtSecret this) payload)"
  from k assms(2) have g: "generateToken lib this now now u = Inr ?token"
    by (simp add: generateToken_def jwt_sign_def Let_def)
  from assms(2) have "\<not> exp_claim payload \<le> now div 1000" by simp
  with k assms(3,4) have v: "validateToken lib this now ?token = Some payload"
    by (simp add: validateToken_def jwt_verify_def)
  from g v assms(2) show ?thesis by simp
qed

theorem issue_then_verify_witness:
  "AuthService_new test_env = Inr test_service
   \<and> generateToken one_token_codec test_service 1700000000000 1700000000000 (js ''testuser'')
       = Inr (js ''header.payload.signature'')
   \<and> validateToken one_token_codec test_service 1700000000000 (js ''header.payload.signature'')
       = Some test_payload
   \<and> username test_payload = (js ''testuser'')
   \<and> exp_claim test_payload - iat_claim test_payload = 86400"
proof -
  have p: "test_payload = \<lparr>username = (js ''testuser''), iat_claim = 1700000000000 div 1000,
                            exp_claim = 1700000000000 div 1000 + 86400\<rparr>"
    by (simp add: test_payload_def)
  have e: "jwt_encode one_token_codec test_payload (HMAC (jwtSecret test_service) test_payload) \<noteq> []"
    by (simp add: one_token_codec_def)
  have d: "jwt_decode one_token_codec
             (jwt_encode one_token_codec test_payload (HMAC (jwtSecret test_service) test_payload))
           = Some (test_payload, HMAC (jwtSecret test_service) test_payload)"
    by (simp add: one_token_codec_def new_test_service_secret)
  from issue_then_verify [OF new_test_env p e d]
  obtain token where
    "generateToken one_token_codec test_service 1700000000000 1700000000000 (js ''testuser'') = Inr token"
    "validateToken one_token_codec test_service 1700000000000 token = Some test_payload"
    "username test_payload = (js ''testuser'')"
    "exp_claim test_payload - iat_claim test_payload = 86400" by blast
  moreover have "generateToken one_token_codec test_service 1700000000000 1700000000000 (js ''testuser'')
       = Inr (js ''header.payload.signature'')"
    by (simp add: generateToken_def jwt_sign_def one_token_codec_def new_test_service_secret
        Let_def)
  ultimately show ?thesis using new_test_env by simp
qed

text \<open>
  C6. On a constructed service \<open>validateToken\<close>, a total function, returns nothing for
  the empty string, for a string that does not decode, for a token whose signature was
  made with another secret, and for a token whose expiry is not after the clock, whatever
  its signature; for every other token it returns the decoded payload.
\<close>

theorem validateToken_cases:
  assumes "AuthService_new env = Inr this"
  shows "validateToken lib this now token =
           (if token = [] then None
            else case jwt_decode lib token of
                   None \<Rightarrow> None
                 | Some (payload, sig) \<Rightarrow>
                     if sig = HMAC (jwtSecret this) payload \<and> now div 1000 < exp_claim payload
                     then Some payload else None)
         \<and> (\<forall>payload secret. jwt_decode lib token = Some (payload, HMAC secret payload)
                \<and> secret \<noteq> jwtSecret this \<longrightarrow> validateToken lib this now token = None)
         \<and> (\<forall>payload sig. jwt_decode lib token = Some (payload, sig)
                \<and> exp_claim payload \<le> now div 1000 \<longrightarrow> validateToken lib this now token = None)"
proof -
  from assms have k: "jwtSecret this \<noteq> []" using AuthService_new_Inr by blast
  then have 1: "validateToken lib this now token =
           (if token = [] then None
            else case jwt_decode lib token of
                   None \<Rightarrow> None
                 | Some (payload, sig) \<Rightarrow>
                     if sig = HMAC (jwtSecret this) payload \<and> now div 1000 < exp_claim payload
                     then Some payload else None)"
    by (auto simp: validateToken_def jwt_verify_def split: option.splits)
  then show ?thesis by (auto split: option.splits)
qed

theorem validateToken_cases_witness:
  "AuthService_new test_env = Inr test_service
   \<and> validateToken one_token_codec test_service 1700000000000 [] = None
   \<and> validateToken one_token_codec test_service 1700000000000 (js ''not-a-jwt-token'') = None
   \<and> validateToken one_token_codec test_service 1700086400000 (js ''header.payload.signature'') = None
   \<and> validateToken one_token_codec test_service 1700086399999 (js ''header.payload.signature'')
        = Some test_payload
   \<and> validateToken one_token_codec (test_service\<lparr>jwtSecret := (js ''othersecret'')\<rparr>) 1700000000000
        (js ''header.payload.signature'') = None"
proof -
  note v = validateToken_cases [OF new_test_env, of one_token_codec]
  have 1: "validateToken one_token_codec test_service 1700000000000 [] = None"
    using v [of 1700000000000 "[]"] by simp
  have 2: "validateToken one_token_codec test_service 1700000000000 (js ''not-a-jwt-token'') = None"
    using v [of 1700000000000 "(js ''not-a-jwt-token'')"] by (simp add: one_token_codec_def)
  have 3: "validateToken one_token_codec test_service 1700086400000 (js ''header.payload.signature'') = None"
    using v [of 1700086400000 "(js ''header.payload.signature'')"]
    by (simp add: one_token_codec_def test_payload_def)
  have 4: "validateToken one_token_codec test_service 1700086399999 (js ''header.payload.signature'')
        = Some test_payload"
    using v [of 1700086399999 "(js ''header.payload.signature'')"]
    by (simp add: one_token_codec_def new_test_service_secret) (simp add: test_payload_def)
  have 5: "validateToken one_token_codec (test_service\<lparr>jwtSecret := (js ''othersecret'')\<rparr>) 1700000000000
        (js ''header.payload.signature'') = None"
    by (simp add: validateToken_def jwt_verify_def one_token_codec_def)
  from new_test_env 1 2 3 4 5 show ?thesis by simp
qed

section \<open>Properties of the verification gate\<close>

text \<open>
  C8. A request with no \<open>Authorization\<close> header, or with one that is not exactly
  \<open>Bearer <token>\<close>, is answered with \<open>Access token required\<close>; a header of that form
  whose token does not verify (or with no service to verify it) is answered with the
  different error \<open>Invalid token\<close>; neither proceeds. Only a header of that form whose
  token verifies proceeds, with the decoded payload attached.
\<close>

theorem authMiddleware_gate:
  "fst (authMiddleware lib env now authService authHeader) =
     (case bearer_token authHeader of
        None \<Rightarrow> Unauthorized (js ''Access token required'')
      | Some token \<Rightarrow>
          (case fst (getAuthService env authService) of
             Inl e \<Rightarrow> Unauthorized (js ''Invalid token'')
           | Inr service \<Rightarrow>
               (case validateToken lib service now token of
                  None \<Rightarrow> Unauthorized (js ''Invalid token'')
                | Some user \<Rightarrow> Next user)))
   \<and> Unauthorized (js ''Access token required'') \<noteq> Unauthorized (js ''Invalid token'')"
proof
  show "Unauthorized (js ''Access token required'') \<noteq> Unauthorized (js ''Invalid token'')" by simp
next
  show "fst (authMiddleware lib env now authService authHeader) =
     (case bearer_token authHeader of
        None \<Rightarrow> Unauthorized (js ''Access token required'')
      | Some token \<Rightarrow>
          (case fst (getAuthService env authService) of
             Inl e \<Rightarrow> Unauthorized (js ''Invalid token'')
           | Inr service \<Rightarrow>
               (case validateToken lib service now token of
                  None \<Rightarrow> Unauthorized (js ''Invalid token'')
                | Some user \<Rightarrow> Next user)))"
  proof (cases authHeader)
    case None
    then show ?thesis by (simp add: authMiddleware_def str_truthy_def bearer_token_def)
  next
    case (Some h)
    show ?thesis
    proof (cases "bearer_token (Some h)")
      case None
      then have "\<not> (length (split (cu CHR '' '') h) = 2 \<and> index_at (split (cu CHR '' '') h) 0 = Some (js ''Bearer'')
          \<and> str_truthy (index_at (split (cu CHR '' '') h) 1))"
        unfolding header_parts by simp
      with None Some show ?thesis
        by (auto simp: authMiddleware_def Let_def)
    next
      case (Some t)
      then have p: "length (split (cu CHR '' '') h) = 2 \<and> index_at (split (cu CHR '' '') h) 0 = Some (js ''Bearer'')
          \<and> str_truthy (index_at (split (cu CHR '' '') h) 1)"
        unfolding header_parts by blast
      from Some have "h \<noteq> []" using bearer_token_empty by auto
      then have "str_truthy (Some h)" by (simp add: str_truthy_def)
      with p Some \<open>authHeader = Some h\<close> header_token [OF Some] show ?thesis
        by (simp add: authMiddleware_def Let_def split: prod.splits sum.splits option.splits)
    qed
  qed
qed

theorem authMiddleware_gate_witness:
  "fst (authMiddleware one_token_codec test_env 1700000000000 None None)
     = Unauthorized (js ''Access token required'')
   \<and> fst (authMiddleware one_token_codec test_env 1700000000000 None (Some (js ''Token xyz'')))
     = Unauthorized (js ''Access token required'')
   \<and> fst (authMiddleware one_token_codec test_env 1700000000000 None (Some (js ''Bearer xyz'')))
     = Unauthorized (js ''Invalid token'')
   \<and> fst (authMiddleware one_token_codec test_env 1700000000000 None
           (Some (js ''Bearer header.payload.signature'')))
     = Next test_payload"
proof -
  note g = authMiddleware_gate [of one_token_codec test_env 1700000000000 None]
  have s: "fst (getAuthService test_env None) = Inr test_service"
    by (simp add: getAuthService_def new_test_env)
  have 1: "fst (authMiddleware one_token_codec test_env 1700000000000 None None)
     = Unauthorized (js ''Access token required'')"
    using g [of None] by (simp add: bearer_token_def)
  have 2: "fst (authMiddleware one_token_codec test_env 1700000000000 None (Some (js ''Token xyz'')))
     = Unauthorized (js ''Access token required'')"
    using g [of "Some (js ''Token xyz'')"] by (simp add: bearer_token_def)
  have "validateToken one_token_codec test_service 1700000000000 (js ''xyz'') = None"
    by (simp add: validateToken_def jwt_verify_def one_token_codec_def)
  then have 3: "fst (authMiddleware one_token_codec test_env 1700000000000 None (Some (js ''Bearer xyz'')))
     = Unauthorized (js ''Invalid token'')"
    using g [of "Some (js ''Bearer xyz'')"] s by (simp add: bearer_token_def)
  have "validateToken one_token_codec test_service 1700000000000 (js ''header.payload.signature'')
      = Some test_payload"
    by (simp add: validateToken_def jwt_verify_def one_token_codec_def new_test_service_secret)
       (simp add: test_payload_def)
  then have 4: "fst (authMiddleware one_token_codec test_env 1700000000000 None
           (Some (js ''Bearer header.payload.signature'')))
     = Next test_payload"
    using g [of "Some (js ''Bearer header.payload.signature'')"] s by (simp add: bearer_token_def)
  from 1 2 3 4 show ?thesis by simp
qed

end
